theory Spec2Isabelle
  imports Complex_Main
begin

section \<open>Errors\<close>

text \<open>
  The Python exceptions the modelled code can raise. \<open>ValueError\<close> carries its
  message; \<open>KeyError\<close> is a failed dictionary lookup, \<open>NameError\<close> a read of an
  unbound global name, \<open>AttributeError\<close> a read of an attribute that was never set,
  \<open>TypeError\<close> an argument that a method of the backend's binding does not accept.
\<close>

datatype py_error = ValueError string | KeyError | NameError | AttributeError | TypeError


section \<open>Sequence decode: \<open>postprocess_response\<close>\<close>

text \<open>
  Token ids are Python integers, a decoded sequence is a Python list of them. The
  tokenizer is an external collaborator: its \<open>convert_ids_to_string\<close> is a parameter
  of the model, with an arbitrary outcome type.
\<close>

type_synonym token_ids = "int list"

text \<open>
  The scanning loop of lines 43 to 46: \<open>enumerate\<close> supplies the running index, the
  first element equal to \<open>eos_idx\<close> ends the loop with its index, and a loop that
  runs to the end leaves \<open>eos_pos\<close> at the value it had before.
\<close>

fun scan_eos :: "token_ids \<Rightarrow> int \<Rightarrow> int \<Rightarrow> int \<Rightarrow> int" where
  "scan_eos [] eos_idx i eos_pos = eos_pos"
| "scan_eos (idx # rest) eos_idx i eos_pos =
     (if idx = eos_idx then i else scan_eos rest eos_idx (i + 1) eos_pos)"

definition eos_position :: "token_ids \<Rightarrow> int \<Rightarrow> int" where
  "eos_position seq eos_idx = scan_eos seq eos_idx 0 (int (length seq) - 1)"

text \<open>
  Python's slice \<open>seq[:stop]\<close>: a negative \<open>stop\<close> counts from the end, and the
  bound is clipped to the list, so a slice never raises.
\<close>

definition py_slice_upto :: "'a list \<Rightarrow> int \<Rightarrow> 'a list" where
  "py_slice_upto xs stop =
     (let n = int (length xs);
          k = (if stop < 0 then max (n + stop) 0 else min stop n)
      in take (nat k) xs)"

text \<open>The list comprehension of lines 47 to 49: the ids handed to the tokenizer.\<close>

definition kept_ids :: "token_ids \<Rightarrow> int \<Rightarrow> int \<Rightarrow> token_ids" where
  "kept_ids seq bos_idx eos_idx =
     filter (\<lambda>idx. idx \<noteq> bos_idx \<and> idx \<noteq> eos_idx)
       (py_slice_upto seq (eos_position seq eos_idx + 1))"

definition postprocess_response ::
  "(token_ids \<Rightarrow> 's) \<Rightarrow> token_ids \<Rightarrow> int \<Rightarrow> int \<Rightarrow> 's" where
  "postprocess_response convert_ids_to_string seq bos_idx eos_idx =
     convert_ids_to_string (kept_ids seq bos_idx eos_idx)"

text \<open>
  The specification's wording of the two steps, for comparison with the code: cut after
  the first occurrence of the end marker, or keep everything when there is none; then
  drop every begin and end marker.
\<close>

definition spec_truncate :: "token_ids \<Rightarrow> int \<Rightarrow> token_ids" where
  "spec_truncate seq eos_id =
     (if eos_id \<in> set seq then takeWhile (\<lambda>x. x \<noteq> eos_id) seq @ [eos_id] else seq)"

definition spec_strip :: "int \<Rightarrow> int \<Rightarrow> token_ids \<Rightarrow> token_ids" where
  "spec_strip bos_id eos_id ids = filter (\<lambda>x. x \<noteq> bos_id \<and> x \<noteq> eos_id) ids"


section \<open>Classification decode: the end of \<open>Predictor.predict\<close>\<close>

text \<open>
  The backend's output \<open>probs\<close> is a two-dimensional array of shape
  (number of rows, \<open>ncols\<close>). The shape is kept beside the rows because numpy tells a
  (0, k) array from a (0, 0) one. The scores are of any linearly ordered type, which
  leaves out the not-a-number values of floating point.
\<close>

record 'a ndarray2 =
  ncols :: nat
  rows :: "'a list list"

definition wf_ndarray2 :: "'a ndarray2 \<Rightarrow> bool" where
  "wf_ndarray2 m = list_all (\<lambda>row. length row = ncols m) (rows m)"

text \<open>
  \<open>np.argmax\<close> along one row, as numpy computes it: the first element is the running
  maximum, and a later element replaces it only when it is strictly greater. An empty
  row has no argmax and numpy raises \<open>ValueError\<close>.
\<close>

fun argmax_scan :: "'a::linorder list \<Rightarrow> nat \<Rightarrow> 'a \<Rightarrow> nat \<Rightarrow> nat" where
  "argmax_scan [] i mp idx = idx"
| "argmax_scan (x # xs) i mp idx =
     (if mp < x then argmax_scan xs (i + 1) x i else argmax_scan xs (i + 1) mp idx)"

definition argmax_row :: "'a::linorder list \<Rightarrow> py_error + nat" where
  "argmax_row row =
     (case row of
        [] \<Rightarrow> Inl (ValueError ''attempt to get argmax of an empty sequence'')
      | x # xs \<Rightarrow> Inr (argmax_scan xs 1 x 0))"

text \<open>
  Evaluating a computation on every element of a list, in order; the first exception
  ends the evaluation, as it does in a list comprehension.
\<close>

fun collect :: "('a \<Rightarrow> py_error + 'b) \<Rightarrow> 'a list \<Rightarrow> py_error + 'b list" where
  "collect f [] = Inr []"
| "collect f (x # xs) =
     (case f x of
        Inl e \<Rightarrow> Inl e
      | Inr y \<Rightarrow> (case collect f xs of Inl e \<Rightarrow> Inl e | Inr ys \<Rightarrow> Inr (y # ys)))"

text \<open>
  \<open>np.argmax(probs, axis=1)\<close>: numpy refuses a reduction along an axis of length 0,
  whatever the number of rows.
\<close>

definition np_argmax_axis1 :: "'a::linorder ndarray2 \<Rightarrow> py_error + nat list" where
  "np_argmax_axis1 a =
     (if ncols a = 0 then Inl (ValueError ''attempt to get argmax of an empty sequence'')
      else collect argmax_row (rows a))"

text \<open>\<open>idx.tolist()\<close>: the indices as Python integers.\<close>

definition tolist :: "nat list \<Rightarrow> int list" where
  "tolist idx = map int idx"

text \<open>\<open>label_map[i]\<close> on a Python dictionary: a missing key raises \<open>KeyError\<close>.\<close>

definition lookup_label :: "(int \<rightharpoonup> 'l) \<Rightarrow> int \<Rightarrow> py_error + 'l" where
  "lookup_label label_map i = (case label_map i of None \<Rightarrow> Inl KeyError | Some l \<Rightarrow> Inr l)"

text \<open>Lines 170 to 172 of \<open>predict\<close>: the decode step.\<close>

definition decode_labels :: "'a::linorder ndarray2 \<Rightarrow> (int \<rightharpoonup> 'l) \<Rightarrow> py_error + 'l list" where
  "decode_labels probs label_map =
     (case np_argmax_axis1 probs of
        Inl e \<Rightarrow> Inl e
      | Inr idx \<Rightarrow> collect (lookup_label label_map) (tolist idx))"

text \<open>
  Lines 170 to 177. After the decode step line 174 reads the module-level name
  \<open>args\<close>, which only the script's main block binds (\<open>None\<close> here when it is
  unbound), and with \<open>args.benchmark\<close> set it reads \<open>self.autolog\<close>, which the
  constructor creates only when \<open>self.benchmark\<close> is set. The timing calls themselves
  belong to the external logger and do not change the returned labels.
\<close>

definition predict_tail ::
  "bool \<Rightarrow> bool option \<Rightarrow> 'a::linorder ndarray2 \<Rightarrow> (int \<rightharpoonup> 'l) \<Rightarrow> py_error + 'l list" where
  "predict_tail self_benchmark args_benchmark probs label_map =
     (case decode_labels probs label_map of
        Inl e \<Rightarrow> Inl e
      | Inr labels \<Rightarrow>
          (case args_benchmark of
             None \<Rightarrow> Inl NameError
           | Some b \<Rightarrow> if b \<and> \<not> self_benchmark then Inl AttributeError else Inr labels))"

text \<open>
  The specification's stable argmax: \<open>j\<close> is a position of the row, no score of the
  row exceeds the one at \<open>j\<close>, and every score before \<open>j\<close> is strictly smaller.
\<close>

definition first_max_index :: "'a::linorder list \<Rightarrow> nat \<Rightarrow> bool" where
  "first_max_index row j \<longleftrightarrow>
     j < length row \<and> (\<forall>k<length row. row ! k \<le> row ! j) \<and> (\<forall>k<j. row ! k < row ! j)"


section \<open>Backend configuration: the start of \<open>Predictor.__init__\<close>\<close>

text \<open>
  The constructor builds a \<open>paddle.inference.Config\<close> from the two model files and
  configures it through method calls; the backend library is external, so the
  configuration is modelled as the files and the calls made on it, in order. The
  arguments of each call are the ones the source passes.
\<close>

datatype precision_type = Half | Float32 | Int8

datatype config_call =
    EnableUseGpu nat nat
  | EnableTensorrtEngine int nat precision_type
  | DisableGpu
  | SetMkldnnCacheCapacity nat
  | EnableMkldnn
  | SetCpuMathLibraryNumThreads int
  | EnableXpu nat
  | SwitchUseFeedFetchOps bool

record inference_config =
  prog_file :: string
  params_file :: string
  calls :: "config_call list"

text \<open>The constructor's arguments.\<close>

record init_args =
  model_dir :: string
  device :: string
  max_seq_length :: int
  batch_size :: int
  use_tensorrt :: bool
  precision :: string
  cpu_threads :: int
  enable_mkldnn :: bool
  benchmark :: bool
  save_log_path :: string

text \<open>The constructor's default values, for a given model directory.\<close>

definition default_args :: "string \<Rightarrow> init_args" where
  "default_args dir =
     \<lparr>model_dir = dir, device = ''gpu'', max_seq_length = 128, batch_size = 32,
      use_tensorrt = False, precision = ''fp32'', cpu_threads = 10, enable_mkldnn = False,
      benchmark = False, save_log_path = ''./log_output''\<rparr>"

text \<open>\<open>os.path.join\<close> of two components, on a POSIX system.\<close>

definition os_path_join :: "string \<Rightarrow> string \<Rightarrow> string" where
  "os_path_join a b =
     (if b \<noteq> [] \<and> hd b = CHR ''/'' then b
      else if a = [] \<or> last a = CHR ''/'' then a @ b
      else a @ ''/'' @ b)"

definition precision_map :: "string \<rightharpoonup> precision_type" where
  "precision_map = [''fp16'' \<mapsto> Half, ''fp32'' \<mapsto> Float32, ''int8'' \<mapsto> Int8]"

text \<open>
  The methods of the configuration are bound to C++ functions whose integer parameters
  are C \<open>int\<close>: the binding accepts a Python integer only within 32 signed bits and
  raises \<open>TypeError\<close> otherwise. The source passes two integers of its caller:
  \<open>batch_size\<close> to \<open>enable_tensorrt_engine\<close> and \<open>cpu_threads\<close> to
  \<open>set_cpu_math_library_num_threads\<close>; the others are small literals.
\<close>

definition fits_c_int :: "int \<Rightarrow> bool" where
  "fits_c_int n \<longleftrightarrow> - 2147483648 \<le> n \<and> n \<le> 2147483647"

text \<open>
  Lines 71 to 97, the branch on the device: the calls made on the configuration, or the
  exception that ends the constructor: the \<open>KeyError\<close> of \<open>precision_map[precision]\<close>,
  or the \<open>TypeError\<close> of a call that is given an integer outside the C range. A
  device string other than the three names makes no call.
\<close>

definition device_calls :: "init_args \<Rightarrow> py_error + config_call list" where
  "device_calls a =
     (if device a = ''gpu'' then
        (case precision_map (precision a) of
           None \<Rightarrow> Inl KeyError
         | Some precision_mode \<Rightarrow>
             if use_tensorrt a then
               (if fits_c_int (batch_size a)
                then Inr [EnableUseGpu 100 0,
                          EnableTensorrtEngine (batch_size a) 30 precision_mode]
                else Inl TypeError)
             else Inr [EnableUseGpu 100 0])
      else if device a = ''cpu'' then
        (if fits_c_int (cpu_threads a)
         then Inr (DisableGpu #
                   (if enable_mkldnn a then [SetMkldnnCacheCapacity 10, EnableMkldnn] else []) @
                   [SetCpuMathLibraryNumThreads (cpu_threads a)])
         else Inl TypeError)
      else if device a = ''xpu'' then Inr [EnableXpu 100]
      else Inr [])"

text \<open>
  Lines 63 to 99: the configuration that the constructor hands to
  \<open>paddle.inference.create_predictor\<close>. The state of the file system is the
  parameter \<open>path_exists\<close>.
\<close>

definition Predictor_init_config ::
  "(string \<Rightarrow> bool) \<Rightarrow> init_args \<Rightarrow> py_error + inference_config" where
  "Predictor_init_config path_exists a =
     (let model_file = os_path_join (model_dir a) ''inference.pdmodel'';
          params_file = os_path_join (model_dir a) ''inference.pdiparams''
      in if \<not> path_exists model_file
           then Inl (ValueError (''not find model file path '' @ model_file))
         else if \<not> path_exists params_file
           then Inl (ValueError (''not find params file path '' @ params_file))
         else (case device_calls a of
                 Inl e \<Rightarrow> Inl e
               | Inr cs \<Rightarrow>
                   Inr \<lparr>prog_file = model_file, params_file = params_file,
                        calls = cs @ [SwitchUseFeedFetchOps False]\<rparr>))"


section \<open>Batch assembly\<close>

text \<open>
  \<open>batchify_fn\<close> of \<open>predict\<close> applies the padding collator \<open>Pad\<close> of
  \<open>paddlenlp.data\<close> to each field of the examples. The code of the collator is not
  among the sources; the specification's \<open>assemble\<close> takes its place.
\<close>

datatype pad_side = Leading | Trailing

datatype spec_error = InvalidInput

record batch =
  max_len :: nat
  pad_value :: int
  batch_rows :: "int list list"

text \<open>
  Modelled from the spec: the padding collator is missing from the sources; this is the
  specification's maximum length across the input sequences, as a running maximum.
\<close>

fun longest :: "'a list list \<Rightarrow> nat" where
  "longest [] = 0"
| "longest (s # ss) = max (length s) (longest ss)"

text \<open>
  Modelled from the spec: the padding collator is missing from the sources; each row is
  the original sequence plus \<open>max_len - len\<close> copies of the pad id on the specified
  side.
\<close>

definition pad_row :: "int \<Rightarrow> pad_side \<Rightarrow> nat \<Rightarrow> int list \<Rightarrow> int list" where
  "pad_row pad_id side n s =
     (case side of
        Trailing \<Rightarrow> s @ replicate (n - length s) pad_id
      | Leading \<Rightarrow> replicate (n - length s) pad_id @ s)"

text \<open>
  Modelled from the spec: the padding collator is missing from the sources; the
  specification's \<open>assemble\<close> fails with \<open>InvalidInput\<close> on an empty list of
  sequences and otherwise pads every sequence to the maximum length, in input order.
\<close>

definition assemble :: "int list list \<Rightarrow> int \<Rightarrow> pad_side \<Rightarrow> spec_error + batch" where
  "assemble sequences pad_id side =
     (if sequences = [] then Inl InvalidInput
      else Inr \<lparr>max_len = longest sequences, pad_value = pad_id,
                batch_rows = map (pad_row pad_id side (longest sequences)) sequences\<rparr>)"


section \<open>Properties of sequence decode\<close>

lemma scan_eos_found:
  "eos \<in> set xs \<Longrightarrow>
     scan_eos xs eos i d = i + int (length (takeWhile (\<lambda>x. x \<noteq> eos) xs))"
  by (induction xs arbitrary: i) auto

lemma scan_eos_absent: "eos \<notin> set xs \<Longrightarrow> scan_eos xs eos i d = d"
  by (induction xs arbitrary: i) auto

lemma take_through_first:
  "eos \<in> set xs \<Longrightarrow>
     take (Suc (length (takeWhile (\<lambda>x. x \<noteq> eos) xs))) xs
       = takeWhile (\<lambda>x. x \<noteq> eos) xs @ [eos]"
  by (induction xs) auto

lemma length_takeWhile_less:
  "eos \<in> set xs \<Longrightarrow> length (takeWhile (\<lambda>x. x \<noteq> eos) xs) < length xs"
  by (induction xs) auto

lemma slice_is_spec_truncate:
  "py_slice_upto seq (eos_position seq eos + 1) = spec_truncate seq eos"
proof (cases "eos \<in> set seq")
  case True
  let ?k = "length (takeWhile (\<lambda>x. x \<noteq> eos) seq)"
  from True have pos: "eos_position seq eos = int ?k"
    by (simp add: eos_position_def scan_eos_found)
  from True have "?k < length seq" by (rule length_takeWhile_less)
  then have "py_slice_upto seq (int ?k + 1) = take (Suc ?k) seq"
    by (simp add: py_slice_upto_def Let_def min_def nat_add_distrib)
  with True pos show ?thesis
    by (simp add: spec_truncate_def take_through_first)
next
  case False
  then have "eos_position seq eos = int (length seq) - 1"
    by (simp add: eos_position_def scan_eos_absent)
  with False show ?thesis
    by (simp add: py_slice_upto_def spec_truncate_def)
qed

lemma kept_ids_spec:
  "kept_ids seq bos eos = spec_strip bos eos (spec_truncate seq eos)"
  by (simp add: kept_ids_def spec_strip_def slice_is_spec_truncate)

lemma kept_ids_free: "eos \<notin> set (kept_ids seq bos eos) \<and> bos \<notin> set (kept_ids seq bos eos)"
  by (simp add: kept_ids_def)

lemma kept_ids_fixed:
  assumes "eos \<notin> set xs" and "bos \<notin> set xs"
  shows "kept_ids xs bos eos = xs"
proof -
  from assms(1) have "spec_truncate xs eos = xs"
    by (simp add: spec_truncate_def)
  moreover from assms have "filter (\<lambda>x. x \<noteq> bos \<and> x \<noteq> eos) xs = xs"
    by (auto simp: filter_id_conv)
  ultimately show ?thesis
    by (simp add: kept_ids_spec spec_strip_def)
qed

text \<open>
  Claim C1. For every list of token ids and every pair of marker ids, sequence decode
  cuts the list after the first end marker (or keeps it whole when there is none),
  removes every begin and end marker from what is left, and hands exactly those ids to
  the text conversion. For the ids 0, 5, 9, 2, 1, 1 with begin marker 0 and end
  marker 2 the conversion receives exactly 5, 9.
\<close>

theorem postprocess_response_truncates_and_strips:
  "postprocess_response tok seq bos eos = tok (spec_strip bos eos (spec_truncate seq eos))
   \<and> postprocess_response tok [0, 5, 9, 2, 1, 1] 0 2 = tok [5, 9]"
proof -
  have general: "\<And>s b e. postprocess_response tok s b e = tok (spec_strip b e (spec_truncate s e))"
    by (simp add: postprocess_response_def kept_ids_spec)
  have "spec_strip 0 2 (spec_truncate [0, 5, 9, 2, 1, 1] 2) = [5, 9]"
    by (simp add: spec_strip_def spec_truncate_def)
  with general show ?thesis by simp
qed

theorem postprocess_response_truncates_and_strips_witness:
  "postprocess_response (\<lambda>ids. ids) [7, 3, 7, 4, 3, 8] 7 3 = [] \<and>
   postprocess_response (\<lambda>ids. ids) [1, 6, 1, 6] 1 9 = [6, 6]"
  using postprocess_response_truncates_and_strips [of "\<lambda>ids. ids" "[7, 3, 7, 4, 3, 8]" 7 3]
        postprocess_response_truncates_and_strips [of "\<lambda>ids. ids" "[1, 6, 1, 6]" 1 9]
  by (simp add: spec_strip_def spec_truncate_def)

text \<open>
  Claim C6. The id processing of sequence decode is idempotent: applied to a list that
  it produced itself, it returns that list unchanged, so decoding an already truncated
  and stripped list gives the same text as decoding the original.
\<close>

theorem kept_ids_idempotent:
  "kept_ids (kept_ids seq bos eos) bos eos = kept_ids seq bos eos
   \<and> postprocess_response tok (kept_ids seq bos eos) bos eos
       = postprocess_response tok seq bos eos"
proof -
  have "kept_ids (kept_ids seq bos eos) bos eos = kept_ids seq bos eos"
    using kept_ids_free [of eos seq bos] by (simp add: kept_ids_fixed)
  then show ?thesis by (simp add: postprocess_response_def)
qed

theorem kept_ids_idempotent_witness:
  "kept_ids [0, 5, 9, 2, 1, 1] 0 2 = [5, 9] \<and> kept_ids [5, 9] 0 2 = [5, 9]"
proof -
  have first: "kept_ids [0, 5, 9, 2, 1, 1] 0 2 = [5, 9]"
    by (simp add: kept_ids_def eos_position_def py_slice_upto_def)
  with kept_ids_idempotent [of "[0, 5, 9, 2, 1, 1]" 0 2 "\<lambda>ids. ids"]
  show ?thesis by simp
qed

text \<open>
  Claim C9. On the empty list sequence decode is defined: the end position starts at
  -1, the slice up to index 0 is empty, and the result is the text conversion of the
  empty id list.
\<close>

theorem postprocess_response_empty:
  "eos_position [] eos = - 1
   \<and> py_slice_upto ([] :: token_ids) (eos_position [] eos + 1) = []
   \<and> postprocess_response tok [] bos eos = tok []"
  by (simp add: eos_position_def py_slice_upto_def postprocess_response_def kept_ids_def)

theorem postprocess_response_empty_witness:
  "postprocess_response (\<lambda>ids. ids) [] 0 2 = []"
  using postprocess_response_empty [of 2 "\<lambda>ids. ids" 0] by simp


section \<open>Properties of classification decode\<close>

lemma argmax_scan_inv:
  "first_max_index pre idx \<Longrightarrow> pre ! idx = mp \<Longrightarrow> i = length pre \<Longrightarrow>
     first_max_index (pre @ xs) (argmax_scan xs i mp idx)"
proof (induction xs arbitrary: pre idx mp i)
  case Nil
  then show ?case by simp
next
  case (Cons x xs)
  show ?case
  proof (cases "mp < x")
    case True
    have "first_max_index (pre @ [x]) (length pre)"
      unfolding first_max_index_def
    proof (intro conjI allI impI)
      show "length pre < length (pre @ [x])" by simp
    next
      fix k assume "k < length (pre @ [x])"
      then consider "k < length pre" | "k = length pre" by fastforce
      then show "(pre @ [x]) ! k \<le> (pre @ [x]) ! length pre"
      proof cases
        case 1
        with Cons.prems have "pre ! k \<le> mp" by (auto simp: first_max_index_def)
        with True 1 show ?thesis by (simp add: nth_append)
      next
        case 2
        then show ?thesis by simp
      qed
    next
      fix k assume k: "k < length pre"
      with Cons.prems have "pre ! k \<le> mp" by (auto simp: first_max_index_def)
      with True k show "(pre @ [x]) ! k < (pre @ [x]) ! length pre" by (simp add: nth_append)
    qed
    from Cons.IH [OF this, of x "i + 1"] Cons.prems(3) True
    show ?thesis by simp
  next
    case False
    from Cons.prems have idx: "idx < length pre" by (simp add: first_max_index_def)
    have "first_max_index (pre @ [x]) idx"
      unfolding first_max_index_def
    proof (intro conjI allI impI)
      from idx show "idx < length (pre @ [x])" by simp
    next
      fix k assume "k < length (pre @ [x])"
      then consider "k < length pre" | "k = length pre" by fastforce
      then show "(pre @ [x]) ! k \<le> (pre @ [x]) ! idx"
      proof cases
        case 1
        with Cons.prems idx show ?thesis by (auto simp: first_max_index_def nth_append)
      next
        case 2
        with False Cons.prems(2) idx show ?thesis by (simp add: nth_append)
      qed
    next
      fix k assume "k < idx"
      with Cons.prems idx show "(pre @ [x]) ! k < (pre @ [x]) ! idx"
        by (auto simp: first_max_index_def nth_append)
    qed
    moreover from idx Cons.prems(2) have "(pre @ [x]) ! idx = mp" by (simp add: nth_append)
    ultimately have "first_max_index ((pre @ [x]) @ xs) (argmax_scan xs (i + 1) mp idx)"
      using Cons.prems(3) by (intro Cons.IH) simp_all
    with False show ?thesis by simp
  qed
qed

lemma argmax_row_first_max:
  assumes "row \<noteq> []"
  shows "\<exists>j. argmax_row row = Inr j \<and> first_max_index row j"
proof -
  from assms obtain x xs where row: "row = x # xs" by (cases row) auto
  have "first_max_index [x] 0" by (simp add: first_max_index_def)
  from argmax_scan_inv [OF this, of x 1 xs] row show ?thesis
    by (simp add: argmax_row_def)
qed

lemma first_max_index_unique:
  "first_max_index row j \<Longrightarrow> first_max_index row k \<Longrightarrow> j = k"
  unfolding first_max_index_def
  by (metis leD linorder_neqE_nat)

lemma collect_Inr_iff:
  "collect f xs = Inr ys \<longleftrightarrow> length ys = length xs \<and> (\<forall>i<length xs. f (xs ! i) = Inr (ys ! i))"
proof (induction xs arbitrary: ys)
  case Nil
  then show ?case by auto
next
  case (Cons x xs)
  show ?case
  proof (cases ys)
    case Nil
    then show ?thesis by (auto split: sum.splits)
  next
    case (Cons y ys')
    with Cons.IH [of ys'] show ?thesis
      by (auto split: sum.splits simp: nth_Cons' All_less_Suc2 less_Suc_eq_0_disj)
  qed
qed

lemma collect_Inl:
  "i < length xs \<Longrightarrow> f (xs ! i) = Inl e \<Longrightarrow> (\<forall>x\<in>set xs. \<forall>e'. f x = Inl e' \<longrightarrow> e' = e) \<Longrightarrow>
     collect f xs = Inl e"
proof (induction xs arbitrary: i)
  case Nil
  then show ?case by simp
next
  case (Cons x xs)
  then show ?case
    by (cases i) (auto split: sum.splits)
qed


lemma collect_total:
  assumes "\<forall>x\<in>set xs. \<exists>y. f x = Inr y"
  shows "\<exists>ys. collect f xs = Inr ys"
  using assms by (induction xs) auto

lemma predict_tail_script:
  "predict_tail b (Some b) probs label_map = decode_labels probs label_map"
  by (cases "decode_labels probs label_map") (simp_all add: predict_tail_def)

lemma decode_labels_Inr:
  assumes "decode_labels probs label_map = Inr labels"
  shows "length labels = length (rows probs)"
    and "i < length (rows probs) \<Longrightarrow>
           \<exists>j. argmax_row (rows probs ! i) = Inr j \<and> first_max_index (rows probs ! i) j
                \<and> label_map (int j) = Some (labels ! i)"
proof -
  from assms obtain idx where idx: "collect argmax_row (rows probs) = Inr idx"
    and lab: "collect (lookup_label label_map) (tolist idx) = Inr labels"
    by (auto simp: decode_labels_def np_argmax_axis1_def split: sum.splits if_splits)
  from idx have len_idx: "length idx = length (rows probs)"
    and at_idx: "\<And>k. k < length (rows probs) \<Longrightarrow> argmax_row (rows probs ! k) = Inr (idx ! k)"
    by (simp_all add: collect_Inr_iff)
  from lab have len_lab: "length labels = length idx"
    and at_lab: "\<And>k. k < length idx \<Longrightarrow> lookup_label label_map (int (idx ! k)) = Inr (labels ! k)"
    by (simp_all add: collect_Inr_iff tolist_def)
  from len_idx len_lab show "length labels = length (rows probs)" by simp
  assume i: "i < length (rows probs)"
  then have am: "argmax_row (rows probs ! i) = Inr (idx ! i)" by (rule at_idx)
  then have "rows probs ! i \<noteq> []" by (auto simp: argmax_row_def)
  from argmax_row_first_max [OF this] am have "first_max_index (rows probs ! i) (idx ! i)"
    by auto
  moreover from i len_idx at_lab [of i] have "label_map (int (idx ! i)) = Some (labels ! i)"
    by (auto simp: lookup_label_def split: option.splits)
  ultimately show "\<exists>j. argmax_row (rows probs ! i) = Inr j \<and> first_max_index (rows probs ! i) j
                \<and> label_map (int j) = Some (labels ! i)"
    using am by blast
qed

text \<open>
  Claim C5. Classification decode picks, in every row of the score matrix, the index of
  the maximum score, the lowest such index when the maximum occurs more than once: a
  non-empty row has an argmax and it is the first position of the maximum, the row
  0.2, 0.9, 0.9 gives index 1, and whenever decode returns labels, the label of row
  \<open>i\<close> is the entry of the label map at that row's argmax index.
\<close>

theorem decode_labels_stable_argmax:
  "(row \<noteq> [] \<longrightarrow> (\<exists>j. argmax_row row = Inr j \<and> first_max_index row j))
   \<and> argmax_row [0.2, 0.9, 0.9 :: real] = Inr 1
   \<and> (decode_labels probs label_map = Inr labels \<longrightarrow>
        length labels = length (rows probs)
        \<and> (\<forall>i<length (rows probs).
             \<exists>j. argmax_row (rows probs ! i) = Inr j \<and> first_max_index (rows probs ! i) j
                  \<and> label_map (int j) = Some (labels ! i)))"
proof (intro conjI impI allI)
  assume "row \<noteq> []"
  then show "\<exists>j. argmax_row row = Inr j \<and> first_max_index row j"
    by (rule argmax_row_first_max)
next
  show "argmax_row [0.2, 0.9, 0.9 :: real] = Inr 1"
    by (simp add: argmax_row_def)
next
  assume "decode_labels probs label_map = Inr labels"
  then show "length labels = length (rows probs)" by (rule decode_labels_Inr(1))
next
  fix i
  assume "decode_labels probs label_map = Inr labels" and "i < length (rows probs)"
  then show "\<exists>j. argmax_row (rows probs ! i) = Inr j \<and> first_max_index (rows probs ! i) j
                  \<and> label_map (int j) = Some (labels ! i)"
    by (rule decode_labels_Inr(2))
qed

theorem decode_labels_stable_argmax_witness:
  "[0.2, 0.9, 0.9 :: real] \<noteq> []
   \<and> decode_labels \<lparr>ncols = 3, rows = [[0.2, 0.9, 0.9 :: real]]\<rparr>
       [0 \<mapsto> ''dissimilar'', 1 \<mapsto> ''similar''] = Inr [''similar'']
   \<and> first_max_index [0.2, 0.9, 0.9 :: real] 1"
proof -
  let ?row = "[0.2, 0.9, 0.9 :: real]"
  let ?probs = "\<lparr>ncols = 3, rows = [?row]\<rparr>"
  let ?lm = "[0 \<mapsto> ''dissimilar'', 1 \<mapsto> ''similar'']"
  have run: "decode_labels ?probs ?lm = Inr [''similar'']"
    by (simp add: decode_labels_def np_argmax_axis1_def argmax_row_def tolist_def lookup_label_def)
  have row: "?row \<noteq> []" by simp
  from decode_labels_stable_argmax [of ?row ?probs ?lm "[''similar'']"] row
  obtain j where "argmax_row ?row = Inr j" and "first_max_index ?row j"
    by blast
  moreover have "argmax_row ?row = Inr 1" by (simp add: argmax_row_def)
  ultimately have "first_max_index ?row 1" by simp
  with run row show ?thesis by simp
qed

text \<open>
  Claim C8. If for some row of a score matrix the argmax index has no entry in the label
  map, classification decode fails with the lookup error (Python's \<open>KeyError\<close>, the
  specification's UnknownLabelIndex) and returns no labels at all.
\<close>

theorem decode_labels_unknown_index:
  assumes "wf_ndarray2 probs"
    and "i < length (rows probs)"
    and "argmax_row (rows probs ! i) = Inr j"
    and "label_map (int j) = None"
  shows "decode_labels probs label_map = Inl KeyError"
proof -
  from assms(3) have nonempty: "rows probs ! i \<noteq> []" by (auto simp: argmax_row_def)
  from assms(1,2) have "length (rows probs ! i) = ncols probs"
    by (simp add: wf_ndarray2_def list_all_length)
  with nonempty have cols: "0 < ncols probs" by (cases "rows probs ! i") auto
  with assms(1) have "\<forall>row\<in>set (rows probs). row \<noteq> []"
    by (auto simp: wf_ndarray2_def list_all_iff)
  then have "\<forall>row\<in>set (rows probs). \<exists>k. argmax_row row = Inr k"
    using argmax_row_first_max by blast
  then obtain idx where idx: "collect argmax_row (rows probs) = Inr idx"
    using collect_total by blast
  with assms(2,3) have len: "i < length (tolist idx)" and at: "tolist idx ! i = int j"
    by (simp_all add: collect_Inr_iff tolist_def)
  from at assms(4) have "lookup_label label_map (tolist idx ! i) = Inl KeyError"
    by (simp add: lookup_label_def)
  moreover have "\<forall>x\<in>set (tolist idx). \<forall>e'. lookup_label label_map x = Inl e' \<longrightarrow> e' = KeyError"
    by (auto simp: lookup_label_def split: option.splits)
  ultimately have "collect (lookup_label label_map) (tolist idx) = Inl KeyError"
    using len by (intro collect_Inl)
  with idx cols show ?thesis
    by (simp add: decode_labels_def np_argmax_axis1_def)
qed

theorem decode_labels_unknown_index_witness:
  "wf_ndarray2 \<lparr>ncols = 3, rows = [[0.7, 0.1, 0.2], [0.2, 0.9, 0.9 :: real]]\<rparr>
   \<and> argmax_row [0.2, 0.9, 0.9 :: real] = Inr 1
   \<and> [0 \<mapsto> ''dissimilar''] (1 :: int) = None
   \<and> decode_labels \<lparr>ncols = 3, rows = [[0.7, 0.1, 0.2], [0.2, 0.9, 0.9 :: real]]\<rparr>
        [0 \<mapsto> ''dissimilar''] = Inl KeyError"
proof -
  let ?probs = "\<lparr>ncols = 3, rows = [[0.7, 0.1, 0.2], [0.2, 0.9, 0.9 :: real]]\<rparr>"
  have wf: "wf_ndarray2 ?probs" by (simp add: wf_ndarray2_def)
  have i: "1 < length (rows ?probs)" by simp
  have am: "argmax_row (rows ?probs ! 1) = Inr 1" by (simp add: argmax_row_def)
  have miss: "[0 \<mapsto> ''dissimilar''] (int 1) = None" by simp
  from decode_labels_unknown_index [of ?probs 1 1 "[0 \<mapsto> ''dissimilar'']", OF wf i am miss] wf am miss
  show ?thesis by simp
qed

text \<open>
  Claim C10. Classification decode preserves length and order: for a score matrix
  whose rows all have their argmax index in the label map, the decode step returns one
  label per row, and the label at position \<open>i\<close> is the label of the argmax of row
  \<open>i\<close>. The matrix has at least one column, as an array with no column has no
  argmax.
\<close>

theorem decode_labels_length_order:
  assumes "0 < ncols probs"
    and "\<forall>row\<in>set (rows probs). \<exists>j. argmax_row row = Inr j \<and> label_map (int j) \<noteq> None"
  shows "\<exists>labels. decode_labels probs label_map = Inr labels
           \<and> length labels = length (rows probs)
           \<and> (\<forall>i<length (rows probs).
                \<exists>j. argmax_row (rows probs ! i) = Inr j \<and> label_map (int j) = Some (labels ! i))"
proof -
  from assms(2) have "\<forall>row\<in>set (rows probs). \<exists>k. argmax_row row = Inr k" by blast
  then obtain idx where idx: "collect argmax_row (rows probs) = Inr idx"
    using collect_total by blast
  have "\<forall>x\<in>set (tolist idx). \<exists>l. lookup_label label_map x = Inr l"
  proof
    fix x assume "x \<in> set (tolist idx)"
    then obtain k where k: "k < length idx" and x: "x = int (idx ! k)"
      by (auto simp: tolist_def in_set_conv_nth)
    from idx k have "k < length (rows probs)" and "argmax_row (rows probs ! k) = Inr (idx ! k)"
      by (simp_all add: collect_Inr_iff)
    with assms(2) have "label_map (int (idx ! k)) \<noteq> None"
      by (metis nth_mem sum.inject(2))
    with x show "\<exists>l. lookup_label label_map x = Inr l"
      by (auto simp: lookup_label_def)
  qed
  then obtain labels where "collect (lookup_label label_map) (tolist idx) = Inr labels"
    using collect_total by blast
  with idx assms(1) have run: "decode_labels probs label_map = Inr labels"
    by (simp add: decode_labels_def np_argmax_axis1_def)
  from decode_labels_Inr [OF run] run show ?thesis by blast
qed

theorem decode_labels_length_order_witness:
  "(0 :: nat) < 2
   \<and> decode_labels \<lparr>ncols = 2, rows = [[0.3, 0.7], [0.6, 0.4], [0.5, 0.5 :: real]]\<rparr>
        [0 \<mapsto> ''dissimilar'', 1 \<mapsto> ''similar'']
      = Inr [''similar'', ''dissimilar'', ''dissimilar'']"
proof -
  let ?probs = "\<lparr>ncols = 2, rows = [[0.3, 0.7], [0.6, 0.4], [0.5, 0.5 :: real]]\<rparr>"
  let ?lm = "[0 \<mapsto> ''dissimilar'', 1 \<mapsto> ''similar'']"
  have cols: "0 < ncols ?probs" by simp
  have hyp: "\<forall>row\<in>set (rows ?probs). \<exists>j. argmax_row row = Inr j \<and> ?lm (int j) \<noteq> None"
    by (simp add: argmax_row_def)
  have run: "decode_labels ?probs ?lm = Inr [''similar'', ''dissimilar'', ''dissimilar'']"
    by (simp add: decode_labels_def np_argmax_axis1_def argmax_row_def tolist_def lookup_label_def)
  from decode_labels_length_order [OF cols hyp] run show ?thesis by simp
qed


section \<open>Properties of the backend configuration and of batch assembly\<close>

lemma device_calls_cpu:
  "device a = ''cpu'' \<Longrightarrow> fits_c_int (cpu_threads a) \<Longrightarrow>
     device_calls a =
       Inr (DisableGpu #
            (if enable_mkldnn a then [SetMkldnnCacheCapacity 10, EnableMkldnn] else []) @
            [SetCpuMathLibraryNumThreads (cpu_threads a)])"
  by (simp add: device_calls_def)

lemma device_calls_cpu_range:
  "device a = ''cpu'' \<Longrightarrow> \<not> fits_c_int (cpu_threads a) \<Longrightarrow> device_calls a = Inl TypeError"
  by (simp add: device_calls_def)

lemma device_calls_options:
  assumes "device a1 = device a2" and "precision a1 = precision a2"
    and "use_tensorrt a1 = use_tensorrt a2" and "batch_size a1 = batch_size a2"
    and "cpu_threads a1 = cpu_threads a2" and "enable_mkldnn a1 = enable_mkldnn a2"
  shows "device_calls a1 = device_calls a2"
  using assms by (auto simp: device_calls_def split: option.splits)

lemma init_config_cong:
  "device_calls a1 = device_calls a2 \<Longrightarrow> model_dir a1 = model_dir a2 \<Longrightarrow>
     Predictor_init_config ex a1 = Predictor_init_config ex a2"
  by (simp add: Predictor_init_config_def Let_def)

lemma init_config_calls:
  "Predictor_init_config ex a = Inr c \<Longrightarrow>
     device_calls a = Inr (butlast (calls c)) \<and> calls c = butlast (calls c) @ [SwitchUseFeedFetchOps False]"
  by (auto simp: Predictor_init_config_def Let_def split: if_splits sum.splits)

text \<open>
  Claim C3, amended. On the CPU the accelerator flag is ignored: the configuration is
  resolved exactly as with the flag off. When both model files exist and the thread
  count fits a C \<open>int\<close>, the result is the CPU configuration (GPU disabled, MKLDNN
  with a cache of 10 shapes when enabled, the thread count), with no accelerator engine
  in it; when the files exist and the thread count does not fit, the constructor ends
  with the \<open>TypeError\<close> of the thread-count call, with the flag on or off.
\<close>

theorem cpu_ignores_accelerator:
  assumes "device a = ''cpu''"
  shows "Predictor_init_config ex a = Predictor_init_config ex (a\<lparr>use_tensorrt := False\<rparr>)
    \<and> (ex (os_path_join (model_dir a) ''inference.pdmodel'')
         \<and> ex (os_path_join (model_dir a) ''inference.pdiparams'')
         \<and> fits_c_int (cpu_threads a) \<longrightarrow>
       Predictor_init_config ex a =
         Inr \<lparr>prog_file = os_path_join (model_dir a) ''inference.pdmodel'',
              params_file = os_path_join (model_dir a) ''inference.pdiparams'',
              calls = DisableGpu #
                (if enable_mkldnn a then [SetMkldnnCacheCapacity 10, EnableMkldnn] else []) @
                [SetCpuMathLibraryNumThreads (cpu_threads a), SwitchUseFeedFetchOps False]\<rparr>)
    \<and> (ex (os_path_join (model_dir a) ''inference.pdmodel'')
         \<and> ex (os_path_join (model_dir a) ''inference.pdiparams'')
         \<and> \<not> fits_c_int (cpu_threads a) \<longrightarrow>
       Predictor_init_config ex a = Inl TypeError)"
proof (intro conjI impI)
  from assms have "device_calls (a\<lparr>use_tensorrt := False\<rparr>) = device_calls a"
    by (simp add: device_calls_def)
  then show "Predictor_init_config ex a = Predictor_init_config ex (a\<lparr>use_tensorrt := False\<rparr>)"
    by (intro init_config_cong) simp_all
next
  assume "ex (os_path_join (model_dir a) ''inference.pdmodel'')
         \<and> ex (os_path_join (model_dir a) ''inference.pdiparams'')
         \<and> fits_c_int (cpu_threads a)"
  with assms show "Predictor_init_config ex a =
         Inr \<lparr>prog_file = os_path_join (model_dir a) ''inference.pdmodel'',
              params_file = os_path_join (model_dir a) ''inference.pdiparams'',
              calls = DisableGpu #
                (if enable_mkldnn a then [SetMkldnnCacheCapacity 10, EnableMkldnn] else []) @
                [SetCpuMathLibraryNumThreads (cpu_threads a), SwitchUseFeedFetchOps False]\<rparr>"
    by (simp add: Predictor_init_config_def device_calls_cpu Let_def)
next
  assume "ex (os_path_join (model_dir a) ''inference.pdmodel'')
         \<and> ex (os_path_join (model_dir a) ''inference.pdiparams'')
         \<and> \<not> fits_c_int (cpu_threads a)"
  with assms show "Predictor_init_config ex a = Inl TypeError"
    by (simp add: Predictor_init_config_def device_calls_cpu_range Let_def)
qed

text \<open>
  The specification's rule that the CPU with the accelerator is rejected fails on the
  constructor: with device \<open>cpu\<close> and \<open>use_tensorrt\<close> set, the configuration is
  resolved without an error.
\<close>

theorem cpu_accelerator_counterexample:
  "Predictor_init_config (\<lambda>p. True)
     ((default_args ''model'')\<lparr>device := ''cpu'', use_tensorrt := True\<rparr>)
   = Inr \<lparr>prog_file = ''model/inference.pdmodel'', params_file = ''model/inference.pdiparams'',
          calls = [DisableGpu, SetCpuMathLibraryNumThreads 10, SwitchUseFeedFetchOps False]\<rparr>"
  by (simp add: Predictor_init_config_def device_calls_def default_args_def os_path_join_def
        fits_c_int_def)

theorem cpu_ignores_accelerator_witness:
  "device ((default_args ''model'')\<lparr>device := ''cpu'', use_tensorrt := True, enable_mkldnn := True\<rparr>) = ''cpu''
   \<and> fits_c_int (cpu_threads
        ((default_args ''model'')\<lparr>device := ''cpu'', use_tensorrt := True, enable_mkldnn := True\<rparr>))
   \<and> Predictor_init_config (\<lambda>p. True)
     ((default_args ''model'')\<lparr>device := ''cpu'', use_tensorrt := True, enable_mkldnn := True\<rparr>)
   = Inr \<lparr>prog_file = ''model/inference.pdmodel'', params_file = ''model/inference.pdiparams'',
          calls = [DisableGpu, SetMkldnnCacheCapacity 10, EnableMkldnn,
                   SetCpuMathLibraryNumThreads 10, SwitchUseFeedFetchOps False]\<rparr>
   \<and> \<not> fits_c_int (cpu_threads
        ((default_args ''model'')\<lparr>device := ''cpu'', use_tensorrt := True,
           cpu_threads := 2147483648\<rparr>))
   \<and> Predictor_init_config (\<lambda>p. True)
     ((default_args ''model'')\<lparr>device := ''cpu'', use_tensorrt := True,
        cpu_threads := 2147483648\<rparr>)
   = Inl TypeError"
proof -
  let ?a = "(default_args ''model'')\<lparr>device := ''cpu'', use_tensorrt := True, enable_mkldnn := True\<rparr>"
  let ?b = "(default_args ''model'')\<lparr>device := ''cpu'', use_tensorrt := True,
              cpu_threads := 2147483648\<rparr>"
  have dev_a: "device ?a = ''cpu''" by simp
  have fit_a: "fits_c_int (cpu_threads ?a)" by (simp add: default_args_def fits_c_int_def)
  have dev_b: "device ?b = ''cpu''" by simp
  have fit_b: "\<not> fits_c_int (cpu_threads ?b)" by (simp add: fits_c_int_def)
  from cpu_ignores_accelerator [OF dev_a, of "\<lambda>p. True", THEN conjunct2, THEN conjunct1] fit_a
  have ra: "Predictor_init_config (\<lambda>p. True) ?a
     = Inr \<lparr>prog_file = ''model/inference.pdmodel'', params_file = ''model/inference.pdiparams'',
          calls = [DisableGpu, SetMkldnnCacheCapacity 10, EnableMkldnn,
                   SetCpuMathLibraryNumThreads 10, SwitchUseFeedFetchOps False]\<rparr>"
    by (simp add: default_args_def os_path_join_def)
  from cpu_ignores_accelerator [OF dev_b, of "\<lambda>p. True", THEN conjunct2, THEN conjunct2] fit_b
  have rb: "Predictor_init_config (\<lambda>p. True) ?b = Inl TypeError"
    by simp
  from dev_a fit_a ra fit_b rb show ?thesis by blast
qed

text \<open>
  Claim C4, amended. On the GPU without the accelerator a requested precision of fp16 or
  int8 is looked up and not used: the configuration is resolved exactly as for fp32, and
  when both model files exist the result only enables the GPU.
\<close>

theorem gpu_precision_without_accelerator:
  assumes "device a = ''gpu''"
    and "precision a = ''fp16'' \<or> precision a = ''int8''"
    and "\<not> use_tensorrt a"
  shows "Predictor_init_config ex a = Predictor_init_config ex (a\<lparr>precision := ''fp32''\<rparr>)
    \<and> (ex (os_path_join (model_dir a) ''inference.pdmodel'')
         \<and> ex (os_path_join (model_dir a) ''inference.pdiparams'') \<longrightarrow>
       Predictor_init_config ex a =
         Inr \<lparr>prog_file = os_path_join (model_dir a) ''inference.pdmodel'',
              params_file = os_path_join (model_dir a) ''inference.pdiparams'',
              calls = [EnableUseGpu 100 0, SwitchUseFeedFetchOps False]\<rparr>)"
proof -
  from assms have dc: "device_calls a = Inr [EnableUseGpu 100 0]"
    by (auto simp: device_calls_def precision_map_def)
  from assms have "device_calls (a\<lparr>precision := ''fp32''\<rparr>) = Inr [EnableUseGpu 100 0]"
    by (simp add: device_calls_def precision_map_def)
  with dc have "device_calls a = device_calls (a\<lparr>precision := ''fp32''\<rparr>)" by simp
  then have "Predictor_init_config ex a = Predictor_init_config ex (a\<lparr>precision := ''fp32''\<rparr>)"
    by (intro init_config_cong) simp_all
  with dc show ?thesis
    by (simp add: Predictor_init_config_def Let_def)
qed

text \<open>
  The specification's rule that a reduced precision without the accelerator is rejected
  fails on the constructor: with device \<open>gpu\<close>, precision \<open>int8\<close> and
  \<open>use_tensorrt\<close> off, the configuration is resolved without an error.
\<close>

theorem gpu_precision_counterexample:
  "Predictor_init_config (\<lambda>p. True) ((default_args ''model'')\<lparr>precision := ''int8''\<rparr>)
   = Inr \<lparr>prog_file = ''model/inference.pdmodel'', params_file = ''model/inference.pdiparams'',
          calls = [EnableUseGpu 100 0, SwitchUseFeedFetchOps False]\<rparr>"
  by (simp add: Predictor_init_config_def device_calls_def default_args_def os_path_join_def
        precision_map_def)

theorem gpu_precision_without_accelerator_witness:
  "device ((default_args ''model/'')\<lparr>precision := ''fp16''\<rparr>) = ''gpu''
   \<and> precision ((default_args ''model/'')\<lparr>precision := ''fp16''\<rparr>) = ''fp16''
   \<and> \<not> use_tensorrt ((default_args ''model/'')\<lparr>precision := ''fp16''\<rparr>)
   \<and> Predictor_init_config (\<lambda>p. True) ((default_args ''model/'')\<lparr>precision := ''fp16''\<rparr>)
   = Inr \<lparr>prog_file = ''model/inference.pdmodel'', params_file = ''model/inference.pdiparams'',
          calls = [EnableUseGpu 100 0, SwitchUseFeedFetchOps False]\<rparr>"
proof -
  let ?a = "(default_args ''model/'')\<lparr>precision := ''fp16''\<rparr>"
  have dev: "device ?a = ''gpu''" by (simp add: default_args_def)
  have prec: "precision ?a = ''fp16'' \<or> precision ?a = ''int8''" by simp
  have trt: "\<not> use_tensorrt ?a" by (simp add: default_args_def)
  from gpu_precision_without_accelerator [OF dev prec trt, of "\<lambda>p. True", THEN conjunct2] dev trt
  show ?thesis
    by (simp add: default_args_def os_path_join_def)
qed

text \<open>
  Claim C7. Configuration resolution is a function of its options: two constructor
  calls that agree on device, precision, accelerator flag, batch size, thread count and
  the MKLDNN cache switch make the same calls on the backend configuration or fail with
  the same exception, whatever the other arguments and the file system are; the
  configurations they return carry the same calls, and with the same model directory
  and file system the whole outcome is the same.
\<close>

theorem config_deterministic:
  assumes "device a1 = device a2" and "precision a1 = precision a2"
    and "use_tensorrt a1 = use_tensorrt a2" and "batch_size a1 = batch_size a2"
    and "cpu_threads a1 = cpu_threads a2" and "enable_mkldnn a1 = enable_mkldnn a2"
  shows "device_calls a1 = device_calls a2
    \<and> (Predictor_init_config ex1 a1 = Inr c1 \<and> Predictor_init_config ex2 a2 = Inr c2
         \<longrightarrow> calls c1 = calls c2)
    \<and> (model_dir a1 = model_dir a2
         \<longrightarrow> Predictor_init_config ex a1 = Predictor_init_config ex a2)"
proof -
  have dc: "device_calls a1 = device_calls a2"
    using assms by (rule device_calls_options)
  have "calls c1 = calls c2"
    if "Predictor_init_config ex1 a1 = Inr c1" and "Predictor_init_config ex2 a2 = Inr c2"
    using init_config_calls [OF that(1)] init_config_calls [OF that(2)] dc
    by (metis sum.inject(2))
  moreover have "Predictor_init_config ex a1 = Predictor_init_config ex a2"
    if "model_dir a1 = model_dir a2"
    using that dc by (intro init_config_cong)
  ultimately show ?thesis using dc by blast
qed

theorem config_deterministic_witness:
  "Predictor_init_config (\<lambda>p. True)
      ((default_args ''a'')\<lparr>use_tensorrt := True, precision := ''fp16''\<rparr>)
    = Inr \<lparr>prog_file = ''a/inference.pdmodel'', params_file = ''a/inference.pdiparams'',
           calls = [EnableUseGpu 100 0, EnableTensorrtEngine 32 30 Half,
                    SwitchUseFeedFetchOps False]\<rparr>
   \<and> Predictor_init_config (\<lambda>p. p \<noteq> ''c'')
      ((default_args ''b/'')\<lparr>use_tensorrt := True, precision := ''fp16'', max_seq_length := 64,
          benchmark := True\<rparr>)
    = Inr \<lparr>prog_file = ''b/inference.pdmodel'', params_file = ''b/inference.pdiparams'',
           calls = [EnableUseGpu 100 0, EnableTensorrtEngine 32 30 Half,
                    SwitchUseFeedFetchOps False]\<rparr>"
proof -
  let ?a1 = "(default_args ''a'')\<lparr>use_tensorrt := True, precision := ''fp16''\<rparr>"
  let ?a2 = "(default_args ''b/'')\<lparr>use_tensorrt := True, precision := ''fp16'',
                max_seq_length := 64, benchmark := True\<rparr>"
  let ?c1 = "\<lparr>prog_file = ''a/inference.pdmodel'', params_file = ''a/inference.pdiparams'',
           calls = [EnableUseGpu 100 0, EnableTensorrtEngine 32 30 Half,
                    SwitchUseFeedFetchOps False]\<rparr>"
  have r1: "Predictor_init_config (\<lambda>p. True) ?a1 = Inr ?c1"
    by (simp add: Predictor_init_config_def device_calls_def default_args_def os_path_join_def
          precision_map_def fits_c_int_def)
  obtain c2 where r2: "Predictor_init_config (\<lambda>p. p \<noteq> ''c'') ?a2 = Inr c2"
    and files: "prog_file c2 = ''b/inference.pdmodel''" "params_file c2 = ''b/inference.pdiparams''"
    by (simp add: Predictor_init_config_def device_calls_def default_args_def os_path_join_def
          precision_map_def fits_c_int_def)
  have "calls ?c1 = calls c2"
    using config_deterministic [of ?a1 ?a2 "\<lambda>p. True" ?c1 "\<lambda>p. p \<noteq> ''c''" c2] r1 r2
    by (simp add: default_args_def)
  with r2 files show ?thesis using r1 by (cases c2) simp
qed

lemma longest_ge: "s \<in> set ss \<Longrightarrow> length s \<le> longest ss"
  by (induction ss) auto

lemma longest_Max: "ss \<noteq> [] \<Longrightarrow> longest ss = Max (length ` set ss)"
proof (induction ss)
  case Nil
  then show ?case by simp
next
  case (Cons s ss)
  show ?case
  proof (cases "ss = []")
    case True
    then show ?thesis by simp
  next
    case False
    with Cons.IH show ?thesis by simp
  qed
qed

lemma length_pad_row: "length s \<le> n \<Longrightarrow> length (pad_row p side n s) = n"
  by (cases side) (simp_all add: pad_row_def)

text \<open>
  Claim C2. For every non-empty list of token-id sequences, assemble returns a batch
  whose \<open>max_len\<close> is the true maximum input length and whose row \<open>i\<close> is the
  \<open>i\<close>-th input sequence followed (Trailing) or preceded (Leading) by exactly
  \<open>max_len - len\<close> copies of the pad id, in input order, every row of length
  \<open>max_len\<close>; the sequences 1, 2, 3 and 4, 5 with pad id 0 and Trailing give the rows
  1, 2, 3 and 4, 5, 0.
\<close>

theorem assemble_rows:
  "(sequences \<noteq> [] \<longrightarrow>
     (\<exists>b. assemble sequences pad_id side = Inr b
        \<and> max_len b = Max (length ` set sequences)
        \<and> length (batch_rows b) = length sequences
        \<and> (\<forall>i<length sequences.
             length (batch_rows b ! i) = max_len b
             \<and> batch_rows b ! i =
                 (case side of
                    Trailing \<Rightarrow> sequences ! i @ replicate (max_len b - length (sequences ! i)) pad_id
                  | Leading \<Rightarrow> replicate (max_len b - length (sequences ! i)) pad_id @ sequences ! i))))
   \<and> assemble [[1, 2, 3], [4, 5]] 0 Trailing
       = Inr \<lparr>max_len = 3, pad_value = 0, batch_rows = [[1, 2, 3], [4, 5, 0]]\<rparr>"
proof (intro conjI impI)
  assume ne: "sequences \<noteq> []"
  let ?b = "\<lparr>max_len = longest sequences, pad_value = pad_id,
             batch_rows = map (pad_row pad_id side (longest sequences)) sequences\<rparr>"
  from ne have "assemble sequences pad_id side = Inr ?b" by (simp add: assemble_def)
  moreover from ne have "max_len ?b = Max (length ` set sequences)" by (simp add: longest_Max)
  moreover have "length (batch_rows ?b) = length sequences" by simp
  moreover have "\<forall>i<length sequences.
             length (batch_rows ?b ! i) = max_len ?b
             \<and> batch_rows ?b ! i =
                 (case side of
                    Trailing \<Rightarrow> sequences ! i @ replicate (max_len ?b - length (sequences ! i)) pad_id
                  | Leading \<Rightarrow> replicate (max_len ?b - length (sequences ! i)) pad_id @ sequences ! i)"
    by (cases side) (simp_all add: pad_row_def longest_ge)
  ultimately show "\<exists>b. assemble sequences pad_id side = Inr b
        \<and> max_len b = Max (length ` set sequences)
        \<and> length (batch_rows b) = length sequences
        \<and> (\<forall>i<length sequences.
             length (batch_rows b ! i) = max_len b
             \<and> batch_rows b ! i =
                 (case side of
                    Trailing \<Rightarrow> sequences ! i @ replicate (max_len b - length (sequences ! i)) pad_id
                  | Leading \<Rightarrow> replicate (max_len b - length (sequences ! i)) pad_id @ sequences ! i))"
    by blast
next
  show "assemble [[1, 2, 3], [4, 5]] 0 Trailing
       = Inr \<lparr>max_len = 3, pad_value = 0, batch_rows = [[1, 2, 3], [4, 5, 0]]\<rparr>"
    by (simp add: assemble_def pad_row_def)
qed

theorem assemble_rows_witness:
  "[[7], [8, 9, 10], []] \<noteq> ([] :: int list list)
   \<and> assemble [[7], [8, 9, 10], []] (-1) Leading
       = Inr \<lparr>max_len = 3, pad_value = -1, batch_rows = [[-1, -1, 7], [8, 9, 10], [-1, -1, -1]]\<rparr>
   \<and> Max (length ` set [[7], [8, 9, 10], ([] :: int list)]) = 3"
proof -
  let ?s = "[[7], [8, 9, 10], ([] :: int list)]"
  have ne: "?s \<noteq> []" by simp
  have run: "assemble ?s (-1) Leading
       = Inr \<lparr>max_len = 3, pad_value = -1, batch_rows = [[-1, -1, 7], [8, 9, 10], [-1, -1, -1]]\<rparr>"
    by (simp add: assemble_def pad_row_def numeral_3_eq_3)
  from assemble_rows [of ?s "-1" Leading] ne run
  have "max_len \<lparr>max_len = 3, pad_value = -1, batch_rows = [[-1, -1, 7], [8, 9, 10], [-1, -1, -1]]\<rparr>
          = Max (length ` set ?s)"
    by auto
  with ne run show ?thesis by simp
qed

end
